theory Spec2Isabelle
  imports Main
begin

section \<open>Values, errors and callables\<close>

text \<open>
  Python objects as far as \<^verbatim>\<open>_calltypes.py\<close> looks at them: \<^verbatim>\<open>None\<close>, the
  \<^verbatim>\<open>NO_DEFAULT\<close> sentinel, the \<^verbatim>\<open>Any\<close> marker, plain values, tuples, classes (known by
  name) and type descriptors. \<open>Anno d t n dflt\<close> is the descriptor with description
  \<open>d\<close>, type \<open>t\<close>, name \<open>n\<close> and default \<open>dflt\<close>; a descriptor made by the call
  \<^verbatim>\<open>Anno(d, t, n)\<close> carries the \<^verbatim>\<open>NO_DEFAULT\<close> sentinel.
\<close>

datatype pyval =
    VNone
  | NO_DEFAULT
  | Any
  | VBool bool
  | VInt int
  | VStr string
  | VTuple "pyval list"
  | VClass string
  | Anno string pyval "string option" pyval

text \<open>\<^verbatim>\<open>isinstance(v, Anno)\<close>\<close>

fun isinstance_Anno :: "pyval \<Rightarrow> bool" where
  "isinstance_Anno (Anno d t n dflt) = True"
| "isinstance_Anno v = False"

text \<open>
  Every \<^verbatim>\<open>raise\<close> and every failing \<^verbatim>\<open>assert\<close> and lookup of the module, with the
  values its message is formatted from.
\<close>

datatype error =
    ValueError_evaluating string string
      \<comment> \<open>\<^verbatim>\<open>"Error evaluating %r: %s" % (expr, e)\<close>\<close>
  | ValueError_no_return
      \<comment> \<open>\<^verbatim>\<open>"Got to the end of the function without seeing ->"\<close>\<close>
  | AssertionError_length "string list" "pyval list"
      \<comment> \<open>\<^verbatim>\<open>"Args %r Types %r length mismatch" % (args, types)\<close>\<close>
  | AssertionError_argument string pyval
      \<comment> \<open>\<^verbatim>\<open>"Argument %r has type %r which is not an Anno" % (a, anno)\<close>\<close>
  | AssertionError_return pyval
      \<comment> \<open>\<^verbatim>\<open>"Return has type %r which is not an Anno" % (return_type,)\<close>\<close>
  | KeyError string
      \<comment> \<open>\<^verbatim>\<open>annotations[a]\<close> with \<open>a\<close> missing\<close>

text \<open>
  The token kinds of \<^verbatim>\<open>tokenize\<close>; the module compares with \<^verbatim>\<open>COMMENT\<close> only. A token
  is its kind and its string.
\<close>

datatype tok_type =
  COMMENT | NAME | NUMBER | STRING | OP | NEWLINE | NL | INDENT | DEDENT | ENDMARKER

type_synonym token = "tok_type \<times> string"

text \<open>
  A \<^verbatim>\<open>dict\<close> or \<^verbatim>\<open>OrderedDict\<close> with string keys, as the list of its items in
  insertion order, each key once. \<^verbatim>\<open>d[k]\<close> and \<^verbatim>\<open>d.get(k)\<close> are \<open>map_of d k\<close>;
  \<^verbatim>\<open>d[k] = v\<close> is \<open>setitem d k v\<close>, which replaces the value of a key already there
  and appends a new key; \<^verbatim>\<open>dict(pairs)\<close> sets the pairs one after the other.
\<close>

type_synonym 'v pydict = "(string \<times> 'v) list"

fun setitem :: "'v pydict \<Rightarrow> string \<Rightarrow> 'v \<Rightarrow> 'v pydict" where
  "setitem [] a v = [(a, v)]"
| "setitem ((k, w) # kvs) a v = (if k = a then (k, v) # kvs else (k, w) # setitem kvs a v)"

definition dict :: "(string \<times> 'v) list \<Rightarrow> 'v pydict" where
  "dict pairs = foldl (\<lambda>d (k, v). setitem d k v) [] pairs"

type_synonym namespace = "pyval pydict"

text \<open>
  A callable, as the module reads it: the fields of \<^verbatim>\<open>getargspec(f)\<close>, the
  \<^verbatim>\<open>__annotations__\<close> attribute (\<open>None\<close> when the callable has none), the tokens that
  \<^verbatim>\<open>tokenize.generate_tokens\<close> yields for \<^verbatim>\<open>inspect.getsourcelines(f)\<close>, and
  \<^verbatim>\<open>f.func_globals\<close>.
\<close>

record func =
  fn_args :: "string list"
  fn_varargs :: "string option"
  fn_keywords :: "string option"
  fn_defaults :: "pyval list option"
  fn_annotations :: "namespace option"
  fn_tokens :: "token list"
  func_globals :: namespace

text \<open>
  Python's builtin \<^verbatim>\<open>eval(expr, globals_d, {})\<close> is a parameter of the model: it
  gives \<open>Inl\<close> of the message of the exception raised, or \<open>Inr\<close> of the value.
\<close>

type_synonym evaluator = "string \<Rightarrow> namespace \<Rightarrow> string + pyval"

text \<open>
  \<^verbatim>\<open>anno_with_default\<close> is imported from \<^verbatim>\<open>_anno.py\<close>, which is not among the sources:
  it is a parameter of the model too, taking the annotation and the default. The call
  with one argument is read as passing \<^verbatim>\<open>NO_DEFAULT\<close>.
\<close>

type_synonym defaulter = "pyval \<Rightarrow> pyval \<Rightarrow> pyval"

section \<open>The pattern \<^verbatim>\<open>type_re\<close>\<close>

text \<open>
  \<^verbatim>\<open>type_re = re.compile('^# type: ([^-]*)( -> (.*))?$')\<close>.
  \<open>at_end\<close> is \<^verbatim>\<open>$\<close>: the end of the string, or just before a newline that ends it.
\<close>

definition at_end :: "string \<Rightarrow> bool" where
  "at_end s \<longleftrightarrow> s = [] \<or> s = [CHR 0x0A]"

text \<open>
  The group \<^verbatim>\<open>( -> (.*))\<close> followed by \<^verbatim>\<open>$\<close>, tried at the start of \<open>s\<close>: the greedy
  \<^verbatim>\<open>.*\<close> runs up to the first newline, and giving characters back cannot make \<^verbatim>\<open>$\<close>
  match. The result is the pair of group 2 and group 3.
\<close>

definition return_group :: "string \<Rightarrow> (string \<times> string) option" where
  "return_group s =
     (if take 4 s = '' -> '' then
        (let r = takeWhile (\<lambda>c. c \<noteq> CHR 0x0A) (drop 4 s)
         in if at_end (drop (length r) (drop 4 s)) then Some ('' -> '' @ r, r) else None)
      else None)"

text \<open>
  What follows group 1 when group 1 is the first \<open>k\<close> characters of \<open>body\<close>: the optional
  group is tried first, then its absence.
\<close>

definition type_re_at :: "nat \<Rightarrow> string \<Rightarrow> (string \<times> (string \<times> string) option) option" where
  "type_re_at k body =
     (case return_group (drop k body) of
        Some g \<Rightarrow> Some (take k body, Some g)
      | None \<Rightarrow> if at_end (drop k body) then Some (take k body, None) else None)"

text \<open>Backtracking of the greedy \<^verbatim>\<open>[^-]*\<close>: the longest group 1 first, then shorter ones.\<close>

fun type_re_from :: "nat \<Rightarrow> string \<Rightarrow> (string \<times> (string \<times> string) option) option" where
  "type_re_from 0 body = type_re_at 0 body"
| "type_re_from (Suc k) body =
     (case type_re_at (Suc k) body of
        Some parts \<Rightarrow> Some parts
      | None \<Rightarrow> type_re_from k body)"

text \<open>
  \<^verbatim>\<open>type_re.match(string)\<close>, with \<^verbatim>\<open>found.groups()\<close> as group 1 and, when it took part
  in the match, groups 2 and 3.
\<close>

definition type_re_match :: "string \<Rightarrow> (string \<times> (string \<times> string) option) option" where
  "type_re_match string =
     (if take 8 string = ''# type: '' then
        type_re_from (length (takeWhile (\<lambda>c. c \<noteq> CHR ''-'') (drop 8 string))) (drop 8 string)
      else None)"

section \<open>\<^verbatim>\<open>make_annotations\<close>\<close>

text \<open>
  The argument part of a matching comment (lines 107 to 119): unless it is \<^verbatim>\<open>(...)\<close>,
  every \<^verbatim>\<open>*\<close> is removed and the rest evaluated; a tuple extends \<open>types\<close>, any other
  value is appended.
\<close>

definition comment_types :: "evaluator \<Rightarrow> namespace \<Rightarrow> pyval list \<Rightarrow> string \<Rightarrow> error + pyval list" where
  "comment_types ev globals_d types part0 =
     (if part0 \<noteq> ''(...)'' then
        (let expr = filter (\<lambda>c. c \<noteq> CHR ''*'') part0 in
         case ev expr globals_d of
           Inl e \<Rightarrow> Inl (ValueError_evaluating expr e)
         | Inr ob \<Rightarrow>
             (case ob of
                VTuple obs \<Rightarrow> Inr (types @ obs)
              | _ \<Rightarrow> Inr (types @ [ob])))
      else Inr types)"

text \<open>The return part of a matching comment (lines 121 to 131).\<close>

definition comment_return ::
  "evaluator \<Rightarrow> namespace \<Rightarrow> string list \<Rightarrow> pyval list \<Rightarrow> string \<Rightarrow> error + namespace" where
  "comment_return ev globals_d args types part2 =
     (case ev part2 globals_d of
        Inl e \<Rightarrow> Inl (ValueError_evaluating part2 e)
      | Inr ob \<Rightarrow>
          if length args = length types then Inr (setitem (dict (zip args types)) ''return'' ob)
          else Inl (AssertionError_length args types))"

text \<open>
  One turn of the loop over the tokens: the loop goes on with the types found so far,
  raises, or returns the annotations.
\<close>

datatype flow = Next "pyval list" | Raise error | Return namespace

definition scan_token ::
  "evaluator \<Rightarrow> namespace \<Rightarrow> string list \<Rightarrow> pyval list \<Rightarrow> token \<Rightarrow> flow" where
  "scan_token ev globals_d args types token =
     (case token of (typ, string) \<Rightarrow>
        if typ = COMMENT then
          (case type_re_match string of
             None \<Rightarrow> Next types
           | Some (part0, part12) \<Rightarrow>
               (case comment_types ev globals_d types part0 of
                  Inl e \<Rightarrow> Raise e
                | Inr types' \<Rightarrow>
                    (case part12 of
                       None \<Rightarrow> Next types'
                     | Some (part1, part2) \<Rightarrow>
                         if part1 \<noteq> [] then
                           (case comment_return ev globals_d args types' part2 of
                              Inl e \<Rightarrow> Raise e
                            | Inr ret \<Rightarrow> Return ret)
                         else Next types')))
        else Next types)"

fun scan_tokens ::
  "evaluator \<Rightarrow> namespace \<Rightarrow> string list \<Rightarrow> pyval list \<Rightarrow> token list \<Rightarrow> error + namespace" where
  "scan_tokens ev globals_d args types [] = Inl ValueError_no_return"
| "scan_tokens ev globals_d args types (token # tokens) =
     (case scan_token ev globals_d args types token of
        Next types' \<Rightarrow> scan_tokens ev globals_d args types' tokens
      | Raise e \<Rightarrow> Inl e
      | Return ret \<Rightarrow> Inr ret)"

text \<open>The names that \<^verbatim>\<open>make_annotations\<close> pairs with the types (lines 92 to 97).\<close>

definition annotation_args :: "func \<Rightarrow> string list" where
  "annotation_args f =
     (let args = [k \<leftarrow> fn_args f. k \<noteq> ''self''];
          args = (case fn_varargs f of None \<Rightarrow> args | Some v \<Rightarrow> args @ [v]);
          args = (case fn_keywords f of None \<Rightarrow> args | Some kw \<Rightarrow> args @ [kw])
      in args)"

definition make_annotations :: "evaluator \<Rightarrow> func \<Rightarrow> namespace \<Rightarrow> error + namespace" where
  "make_annotations ev f globals_d =
     scan_tokens ev globals_d (annotation_args f) [] (fn_tokens f)"

section \<open>\<^verbatim>\<open>make_call_types\<close>\<close>

text \<open>Line 51: the argument names, without any that is \<^verbatim>\<open>"self"\<close>.\<close>

definition call_args :: "func \<Rightarrow> string list" where
  "call_args f = [k \<leftarrow> fn_args f. k \<noteq> ''self'']"

text \<open>
  Lines 53 to 57. \<^verbatim>\<open>args[-n:]\<close> with \<open>n\<close> positive is the last \<open>n\<close> elements, and the
  whole list when it has fewer.
\<close>

definition call_defaults :: "func \<Rightarrow> namespace" where
  "call_defaults f =
     (case fn_defaults f of
        None \<Rightarrow> []
      | Some ds \<Rightarrow>
          if ds \<noteq> [] then
            (let default_args = drop (length (call_args f) - length ds) (call_args f)
             in dict (zip default_args ds))
          else [])"

text \<open>Lines 59 to 63: the raw annotations.\<close>

definition raw_annotations :: "evaluator \<Rightarrow> func \<Rightarrow> namespace \<Rightarrow> error + namespace" where
  "raw_annotations ev f globals_d =
     (case fn_annotations f of
        None \<Rightarrow> make_annotations ev f globals_d
      | Some annotations \<Rightarrow>
          if annotations = [] then make_annotations ev f globals_d
          else Inr annotations)"

text \<open>Lines 65 to 70: the loop over the arguments, filling \<^verbatim>\<open>call_types\<close>.\<close>

fun call_types_loop ::
  "defaulter \<Rightarrow> namespace \<Rightarrow> namespace \<Rightarrow> string list \<Rightarrow> pyval pydict
     \<Rightarrow> error + pyval pydict" where
  "call_types_loop awd annotations defaults [] call_types = Inr call_types"
| "call_types_loop awd annotations defaults (a # args) call_types =
     (case map_of annotations a of
        None \<Rightarrow> Inl (KeyError a)
      | Some t \<Rightarrow>
          (let anno = awd t (case map_of defaults a of None \<Rightarrow> NO_DEFAULT | Some d \<Rightarrow> d)
           in if isinstance_Anno anno
              then call_types_loop awd annotations defaults args (setitem call_types a anno)
              else Inl (AssertionError_argument a anno)))"

text \<open>Lines 72 to 76: the return type.\<close>

definition call_return :: "defaulter \<Rightarrow> namespace \<Rightarrow> error + pyval" where
  "call_return awd annotations =
     (let return_type = awd (case map_of annotations ''return'' of None \<Rightarrow> VNone | Some r \<Rightarrow> r) NO_DEFAULT;
          return_type = (if return_type = Any
                         then Anno ''Any return value'' Any (Some ''return'') NO_DEFAULT
                         else return_type)
      in if return_type = VNone \<or> isinstance_Anno return_type then Inr return_type
         else Inl (AssertionError_return return_type))"

definition make_call_types ::
  "evaluator \<Rightarrow> defaulter \<Rightarrow> func \<Rightarrow> namespace \<Rightarrow> error + (pyval pydict \<times> pyval)" where
  "make_call_types ev awd f globals_d =
     (case raw_annotations ev f globals_d of
        Inl e \<Rightarrow> Inl e
      | Inr annotations \<Rightarrow>
          (case call_types_loop awd annotations (call_defaults f) (call_args f) [] of
             Inl e \<Rightarrow> Inl e
           | Inr call_types \<Rightarrow>
               (case call_return awd annotations of
                  Inl e \<Rightarrow> Inl e
                | Inr return_type \<Rightarrow> Inr (call_types, return_type))))"

section \<open>The metaclass \<^verbatim>\<open>CallTypesMeta\<close>\<close>

text \<open>
  The two attributes that \<^verbatim>\<open>CallTypesMeta.__init__\<close> stores on the class it is called
  for. The class body \<open>dct\<close> holds the functions defined in it under their names.
\<close>

record class_attrs =
  call_types :: "pyval pydict"
  return_type :: pyval

definition CallTypesMeta_init ::
  "evaluator \<Rightarrow> defaulter \<Rightarrow> string \<Rightarrow> string list \<Rightarrow> func pydict \<Rightarrow> error + class_attrs" where
  "CallTypesMeta_init ev awd name bases dct =
     (case (case map_of dct ''__init__'' of
              Some f \<Rightarrow> map_sum id fst (make_call_types ev awd f (func_globals f))
            | None \<Rightarrow> Inr [])
      of
        Inl e \<Rightarrow> Inl e
      | Inr ct \<Rightarrow>
          Inr \<lparr>call_types = ct,
               return_type = Anno ''Class instance'' (VClass name) (Some ''Instance'') NO_DEFAULT\<rparr>)"

text \<open>\<^verbatim>\<open>add_call_types\<close>: the two results stored on the function.\<close>

definition add_call_types :: "evaluator \<Rightarrow> defaulter \<Rightarrow> func \<Rightarrow> error + class_attrs" where
  "add_call_types ev awd f =
     (case make_call_types ev awd f (func_globals f) of
        Inl e \<Rightarrow> Inl e
      | Inr (ct, rt) \<Rightarrow> Inr \<lparr>call_types = ct, return_type = rt\<rparr>)"

section \<open>The loop state along a prefix of the tokens\<close>

text \<open>
  \<open>scan_prefix\<close> gives the types collected when the loop has gone through \<open>tokens\<close>
  without raising or returning, and \<open>None\<close> when it has left the loop before.
\<close>

fun scan_prefix ::
  "evaluator \<Rightarrow> namespace \<Rightarrow> string list \<Rightarrow> pyval list \<Rightarrow> token list \<Rightarrow> pyval list option" where
  "scan_prefix ev globals_d args types [] = Some types"
| "scan_prefix ev globals_d args types (token # tokens) =
     (case scan_token ev globals_d args types token of
        Next types' \<Rightarrow> scan_prefix ev globals_d args types' tokens
      | Raise e \<Rightarrow> None
      | Return ret \<Rightarrow> None)"

text \<open>A token is a type comment when it is a comment that \<^verbatim>\<open>type_re\<close> matches.\<close>

definition type_comment :: "token \<Rightarrow> bool" where
  "type_comment token \<longleftrightarrow> fst token = COMMENT \<and> type_re_match (snd token) \<noteq> None"

text \<open>A type comment carries a return part when group 2 took part in the match.\<close>

definition return_comment :: "token \<Rightarrow> bool" where
  "return_comment token \<longleftrightarrow>
     fst token = COMMENT \<and>
     (case type_re_match (snd token) of
        Some (part0, Some part12) \<Rightarrow> True
      | _ \<Rightarrow> False)"

text \<open>
  The argument part of a token evaluates when the token is no type comment, or its
  group 1 is \<^verbatim>\<open>(...)\<close>, or the evaluator gives a value for group 1 without its
  asterisks.
\<close>

definition args_evaluate :: "evaluator \<Rightarrow> namespace \<Rightarrow> token \<Rightarrow> bool" where
  "args_evaluate ev globals_d token =
     (case token of (kind, string) \<Rightarrow>
        if kind = COMMENT then
          (case type_re_match string of
             None \<Rightarrow> True
           | Some (part0, part12) \<Rightarrow>
               if part0 = ''(...)'' then True
               else (case ev (filter (\<lambda>c. c \<noteq> CHR ''*'') part0) globals_d of
                       Inl e \<Rightarrow> False
                     | Inr ob \<Rightarrow> True))
        else True)"

section \<open>Stand-ins for the examples\<close>

text \<open>
  Modelled from the spec: \<^verbatim>\<open>anno_with_default\<close> of \<^verbatim>\<open>_anno.py\<close>, which is not among the
  sources. Section 4.1 has it return a copy of the descriptor whose default is the given
  one, unless the given default is the any-value marker, when the descriptor becomes one
  that accepts any value under the marker's own name; section 4.4 has the caller assert
  afterwards that the result is a descriptor, so a value that is none comes back as it
  is. The theorems below hold for every such helper; this one serves the examples.
\<close>

fun anno_with_default :: "pyval \<Rightarrow> pyval \<Rightarrow> pyval" where
  "anno_with_default (Anno d t n dflt) raw_default =
     (if raw_default = Any then Anno d Any (Some ''Any'') NO_DEFAULT else Anno d t n raw_default)"
| "anno_with_default v raw_default = v"

text \<open>
  An evaluator for the examples, standing in for Python's \<^verbatim>\<open>eval\<close> on the expressions
  they use: a name (looked up in the namespace, \<^verbatim>\<open>None\<close> being the constant), or a
  parenthesised list of names separated by commas, which is the value of the name when
  there is one name and the tuple of the values otherwise. A name that is not defined
  raises \<^verbatim>\<open>NameError\<close> with Python's message.
\<close>

definition NameError_message :: "string \<Rightarrow> string" where
  "NameError_message n = ''name '' @ [CHR 0x27] @ n @ [CHR 0x27] @ '' is not defined''"

definition eval_name :: "namespace \<Rightarrow> string \<Rightarrow> string + pyval" where
  "eval_name globals_d n =
     (if n = ''None'' then Inr VNone
      else case map_of globals_d n of
             Some v \<Rightarrow> Inr v
           | None \<Rightarrow> Inl (NameError_message n))"

fun split_commas :: "string \<Rightarrow> string list" where
  "split_commas [] = [] # []"
| "split_commas (c # cs) =
     (if c = CHR '','' then [] # split_commas cs
      else (case split_commas cs of
              [] \<Rightarrow> [c] # []
            | w # ws \<Rightarrow> (c # w) # ws))"

definition strip :: "string \<Rightarrow> string" where
  "strip s = rev (dropWhile (\<lambda>c. c = CHR '' '') (rev (dropWhile (\<lambda>c. c = CHR '' '') s)))"

fun eval_all :: "namespace \<Rightarrow> string list \<Rightarrow> string + pyval list" where
  "eval_all globals_d [] = Inr []"
| "eval_all globals_d (n # ns) =
     (case eval_name globals_d n of
        Inl e \<Rightarrow> Inl e
      | Inr v \<Rightarrow> (case eval_all globals_d ns of Inl e \<Rightarrow> Inl e | Inr vs \<Rightarrow> Inr (v # vs)))"

definition eval_names :: evaluator where
  "eval_names expr globals_d =
     (let s = strip expr in
      if s \<noteq> [] \<and> hd s = CHR ''('' \<and> last s = CHR '')'' then
        (let inner = strip (butlast (tl s)) in
         if inner = [] then Inr (VTuple [])
         else (case map strip (split_commas inner) of
                 [n] \<Rightarrow> eval_name globals_d n
               | ns \<Rightarrow> map_sum id VTuple (eval_all globals_d ns)))
      else eval_name globals_d s)"

text \<open>
  The functions of the examples, after \<^verbatim>\<open>tests/test_annotypes.py\<close>. \<open>Good\<close> is the
  descriptor that the test module declares with \<^verbatim>\<open>with Anno("Good origin"): Good = str\<close>.
\<close>

definition Good :: pyval where
  "Good = Anno ''Good origin'' (VClass ''str'') (Some ''Good'') NO_DEFAULT"

definition Exposure :: pyval where
  "Exposure = Anno ''The exposure to be active for'' (VClass ''float'') (Some ''Exposure'') NO_DEFAULT"

definition Path :: pyval where
  "Path = Anno ''The path to write to'' (VClass ''str'') (Some ''Path'') NO_DEFAULT"

definition test_globals :: namespace where
  "test_globals = [(''Good'', Good), (''Exposure'', Exposure), (''Path'', Path),
                   (''Any'', Any), (''str'', VClass ''str''), (''T'', VClass ''T'')]"

text \<open>The tokens of a function: its header, the lines of its body, the end.\<close>

definition def_tokens :: "string \<Rightarrow> token list \<Rightarrow> token list \<Rightarrow> token list" where
  "def_tokens name params body =
     [(NAME, ''def''), (NAME, name), (OP, ''('')] @ params @ [(OP, '')''), (OP, '':''),
      (NEWLINE, [CHR 0x0A])] @ body @ [(DEDENT, []), (ENDMARKER, [])]"

text \<open>
  \<^verbatim>\<open>
  def f(a, b):
      return
  \<close>
  of \<^verbatim>\<open>test_make_annotations_no_comments\<close>.
\<close>

definition f_no_comments :: func where
  "f_no_comments =
     \<lparr>fn_args = [''a'', ''b''], fn_varargs = None, fn_keywords = None, fn_defaults = None,
      fn_annotations = None,
      fn_tokens = def_tokens ''f'' [(NAME, ''a''), (OP, '',''), (NAME, ''b'')]
                    [(INDENT, ''    ''), (NAME, ''return''), (NEWLINE, [CHR 0x0A])],
      func_globals = test_globals\<rparr>"

text \<open>
  \<^verbatim>\<open>
  class Root(WithCallTypes):
      def __init__(self, name):
          # type: (Good) -> None
          self.name = name

  class Sub1(Root):
      def func(self):
          pass
  \<close>
  of \<^verbatim>\<open>test_subclassing_with_no_init\<close>.
\<close>

definition Root_init :: func where
  "Root_init =
     \<lparr>fn_args = [''self'', ''name''], fn_varargs = None, fn_keywords = None,
      fn_defaults = None, fn_annotations = None,
      fn_tokens = def_tokens ''__init__'' [(NAME, ''self''), (OP, '',''), (NAME, ''name'')]
                    [(COMMENT, ''# type: (Good) -> None''), (NL, [CHR 0x0A]), (INDENT, ''    ''),
                     (NAME, ''self''), (OP, ''.''), (NAME, ''name''), (OP, ''=''), (NAME, ''name''),
                     (NEWLINE, [CHR 0x0A])],
      func_globals = test_globals\<rparr>"

definition Sub1_func :: func where
  "Sub1_func =
     \<lparr>fn_args = [''self''], fn_varargs = None, fn_keywords = None,
      fn_defaults = None, fn_annotations = None,
      fn_tokens = def_tokens ''func'' [(NAME, ''self'')]
                    [(INDENT, ''    ''), (NAME, ''pass''), (NEWLINE, [CHR 0x0A])],
      func_globals = test_globals\<rparr>"

definition Root_dct :: "func pydict" where
  "Root_dct = [(''__init__'', Root_init)]"

definition Sub1_dct :: "func pydict" where
  "Sub1_dct = [(''func'', Sub1_func)]"

text \<open>
  \<^verbatim>\<open>
  def __init__(self, exposure, path="/tmp/file.txt"):
      # type: (Exposure, Path) -> None
      self.exposure = exposure
  \<close>
  after the class that \<^verbatim>\<open>test_simple\<close> describes.
\<close>

definition Simple_init :: func where
  "Simple_init =
     \<lparr>fn_args = [''self'', ''exposure'', ''path''], fn_varargs = None, fn_keywords = None,
      fn_defaults = Some [VStr ''/tmp/file.txt''], fn_annotations = None,
      fn_tokens = def_tokens ''__init__''
                    [(NAME, ''self''), (OP, '',''), (NAME, ''exposure''), (OP, '',''),
                     (NAME, ''path''), (OP, ''=''), (STRING, [CHR 0x22] @ ''/tmp/file.txt'' @ [CHR 0x22])]
                    [(COMMENT, ''# type: (Exposure, Path) -> None''), (NL, [CHR 0x0A]),
                     (INDENT, ''    ''), (NAME, ''self''), (OP, ''.''), (NAME, ''exposure''),
                     (OP, ''=''), (NAME, ''exposure''), (NEWLINE, [CHR 0x0A])],
      func_globals = test_globals\<rparr>"

text \<open>
  \<^verbatim>\<open>
  def any_func(**kwargs):
      # type: (**Any) -> Any
      return kwargs
  \<close>
  of \<^verbatim>\<open>test_any_return\<close>.
\<close>

definition any_func :: func where
  "any_func =
     \<lparr>fn_args = [], fn_varargs = None, fn_keywords = Some ''kwargs'',
      fn_defaults = None, fn_annotations = None,
      fn_tokens = def_tokens ''any_func'' [(OP, ''**''), (NAME, ''kwargs'')]
                    [(COMMENT, ''# type: (**Any) -> Any''), (NL, [CHR 0x0A]), (INDENT, ''    ''),
                     (NAME, ''return''), (NAME, ''kwargs''), (NEWLINE, [CHR 0x0A])],
      func_globals = test_globals\<rparr>"

text \<open>
  \<^verbatim>\<open>
  def f(v, *args, **kwargs):
      # type: (Good, *Any, **Any) -> None
      pass  # type: (NonExistant) -> Missing
  \<close>
  the function of \<^verbatim>\<open>test_kwargs\<close> with a second type comment after the first.
\<close>

definition f_kwargs :: func where
  "f_kwargs =
     \<lparr>fn_args = [''v''], fn_varargs = Some ''args'', fn_keywords = Some ''kwargs'',
      fn_defaults = None, fn_annotations = None,
      fn_tokens = def_tokens ''f''
                    [(NAME, ''v''), (OP, '',''), (OP, ''*''), (NAME, ''args''), (OP, '',''),
                     (OP, ''**''), (NAME, ''kwargs'')]
                    [(COMMENT, ''# type: (Good, *Any, **Any) -> None''), (NL, [CHR 0x0A]),
                     (INDENT, ''    ''), (NAME, ''pass''),
                     (COMMENT, ''# type: (NonExistant) -> Missing''), (NEWLINE, [CHR 0x0A])],
      func_globals = test_globals\<rparr>"

text \<open>
  \<^verbatim>\<open>
  def f(arg):
      <comment>
      return arg
  \<close>
  the shape of the functions of \<^verbatim>\<open>test_bad_arg_type\<close>, \<^verbatim>\<open>test_no_return\<close> and
  \<^verbatim>\<open>test_bad_return\<close>, which differ in the comment.
\<close>

definition f_arg :: "string \<Rightarrow> func" where
  "f_arg comment =
     \<lparr>fn_args = [''arg''], fn_varargs = None, fn_keywords = None,
      fn_defaults = None, fn_annotations = None,
      fn_tokens = def_tokens ''f'' [(NAME, ''arg'')]
                    [(COMMENT, comment), (NL, [CHR 0x0A]), (INDENT, ''    ''),
                     (NAME, ''return''), (NAME, ''arg''), (NEWLINE, [CHR 0x0A])],
      func_globals = test_globals\<rparr>"

text \<open>
  \<^verbatim>\<open>
  def f(a: Good, b: str): pass
  \<close>
  and the same with \<^verbatim>\<open>b\<close> not annotated: functions with live annotations.
\<close>

definition f_live :: "namespace \<Rightarrow> func" where
  "f_live annotations =
     \<lparr>fn_args = [''a'', ''b''], fn_varargs = None, fn_keywords = None,
      fn_defaults = None, fn_annotations = Some annotations,
      fn_tokens = def_tokens ''f'' [(NAME, ''a''), (OP, '':''), (NAME, ''Good''), (OP, '',''),
                     (NAME, ''b'')]
                    [(INDENT, ''    ''), (NAME, ''pass''), (NEWLINE, [CHR 0x0A])],
      func_globals = test_globals\<rparr>"

text \<open>
  \<^verbatim>\<open>
  @classmethod
  def c(cls, a):
      # type: (T, str) -> str
      return a
  \<close>
  of \<^verbatim>\<open>test_make_annotations_self\<close>, and
  \<^verbatim>\<open>
  def g(a, self):
      # type: (Good) -> None
      pass
  \<close>
\<close>

definition c_method :: func where
  "c_method =
     \<lparr>fn_args = [''cls'', ''a''], fn_varargs = None, fn_keywords = None,
      fn_defaults = None, fn_annotations = None,
      fn_tokens = def_tokens ''c'' [(NAME, ''cls''), (OP, '',''), (NAME, ''a'')]
                    [(COMMENT, ''# type: (T, str) -> str''), (NL, [CHR 0x0A]), (INDENT, ''    ''),
                     (NAME, ''return''), (NAME, ''a''), (NEWLINE, [CHR 0x0A])],
      func_globals = test_globals\<rparr>"

definition g_self :: func where
  "g_self =
     \<lparr>fn_args = [''a'', ''self''], fn_varargs = None, fn_keywords = None,
      fn_defaults = None, fn_annotations = None,
      fn_tokens = def_tokens ''g'' [(NAME, ''a''), (OP, '',''), (NAME, ''self'')]
                    [(COMMENT, ''# type: (Good) -> None''), (NL, [CHR 0x0A]), (INDENT, ''    ''),
                     (NAME, ''pass''), (NEWLINE, [CHR 0x0A])],
      func_globals = test_globals\<rparr>"

section \<open>Dictionaries\<close>

lemma map_of_setitem: "map_of (setitem d k v) = (map_of d)(k \<mapsto> v)"
  by (induction d k v rule: setitem.induct) (auto simp: fun_eq_iff)

lemma setitem_fresh: "a \<notin> fst ` set d \<Longrightarrow> setitem d a v = d @ [(a, v)]"
  by (induction d a v rule: setitem.induct) auto

lemma setitem_keys: "fst ` set (setitem d a v) = insert a (fst ` set d)"
  by (induction d a v rule: setitem.induct) auto

lemma map_of_foldl_setitem:
  "map_of (foldl (\<lambda>d (k, v). setitem d k v) d pairs) = map_of d ++ map_of (rev pairs)"
proof (induction pairs arbitrary: d)
  case Nil
  then show ?case by simp
next
  case (Cons p pairs)
  obtain k v where p: "p = (k, v)" by (cases p)
  have "map_of (setitem d k v) ++ map_of (rev pairs) = map_of d ++ ([k \<mapsto> v] ++ map_of (rev pairs))"
    by (auto simp: map_of_setitem map_add_def fun_eq_iff split: option.splits)
  then show ?case using Cons.IH [of "setitem d k v"] p by simp
qed

lemma map_of_dict: "map_of (dict pairs) = map_of (rev pairs)"
  by (simp add: dict_def map_of_foldl_setitem)

lemma dict_zip_nth:
  assumes "distinct ks" "i < length ks" "i < length vs"
  shows "map_of (dict (zip ks vs)) (ks ! i) = Some (vs ! i)"
proof -
  let ?n = "min (length ks) (length vs)"
  have z: "zip ks vs = zip (take ?n ks) (take ?n vs)"
    by (metis (no_types) length_zip take_all_iff order_refl take_zip)
  have d: "distinct (map fst (zip ks vs))"
    using assms(1) by (simp add: distinct_zipI1 map_fst_zip_take)
  have "map_of (dict (zip ks vs)) = map_of (zip (take ?n ks) (take ?n vs))"
    using d z by (metis map_of_dict distinct_rev rev_map map_of_inject_set set_rev)
  moreover have "map_of (zip (take ?n ks) (take ?n vs)) (take ?n ks ! i) = Some (take ?n vs ! i)"
    using assms by (intro map_of_zip_nth) auto
  ultimately show ?thesis using assms by simp
qed

lemma dict_zip_None:
  assumes "k \<notin> set ks"
  shows "map_of (dict (zip ks vs)) k = None"
proof -
  have "k \<notin> fst ` set (rev (zip ks vs))"
    using assms by (auto dest: set_zip_leftD)
  then show ?thesis unfolding map_of_dict map_of_eq_None_iff .
qed

lemma nth_not_in_drop:
  assumes "distinct xs" "i < m" "i < length xs"
  shows "xs ! i \<notin> set (drop m xs)"
proof
  assume "xs ! i \<in> set (drop m xs)"
  then obtain j where j: "j < length (drop m xs)" "drop m xs ! j = xs ! i"
    by (auto simp: in_set_conv_nth)
  then have "xs ! (m + j) = xs ! i" and "m + j < length xs" by auto
  then have "m + j = i" using assms(1,3) by (simp add: nth_eq_iff_index_eq)
  then show False using assms(2) by simp
qed

section \<open>The pattern and the loop over the tokens\<close>

text \<open>Group 2 of a match is the arrow followed by group 3, so it is never empty.\<close>

lemma type_re_at_group:
  "type_re_at k body = Some (part0, Some (part1, part2)) \<Longrightarrow> part1 = '' -> '' @ part2"
  by (auto simp: type_re_at_def return_group_def Let_def split: option.splits if_splits)

lemma type_re_from_group:
  "type_re_from k body = Some (part0, Some (part1, part2)) \<Longrightarrow> part1 = '' -> '' @ part2"
  by (induction k) (auto dest: type_re_at_group split: option.splits)

lemma type_re_match_group:
  "type_re_match c = Some (part0, Some (part1, part2)) \<Longrightarrow> part1 = '' -> '' @ part2"
  by (auto simp: type_re_match_def dest: type_re_from_group split: if_splits)

lemma scan_prefix_append:
  "scan_prefix ev g args types0 pre = Some types \<Longrightarrow>
   scan_tokens ev g args types0 (pre @ rest) = scan_tokens ev g args types rest"
proof (induction pre arbitrary: types0)
  case Nil
  then show ?case by simp
next
  case (Cons t pre)
  then show ?case by (cases "scan_token ev g args types0 t") simp_all
qed

lemma scan_token_other:
  "\<not> type_comment token \<Longrightarrow> scan_token ev g args types token = Next types"
  by (cases token) (auto simp: scan_token_def type_comment_def split: option.splits)

lemma scan_tokens_no_type_comments:
  "\<forall>t \<in> set tokens. \<not> type_comment t \<Longrightarrow>
   scan_tokens ev g args types tokens = Inl ValueError_no_return"
  by (induction tokens) (simp_all add: scan_token_other)

lemma scan_token_return_comment:
  assumes "type_re_match c = Some (part0, Some (part1, part2))"
  shows "scan_token ev g args types (COMMENT, c) =
           (case comment_types ev g types part0 of
              Inl e \<Rightarrow> Raise e
            | Inr types' \<Rightarrow>
                (case comment_return ev g args types' part2 of
                   Inl e \<Rightarrow> Raise e
                 | Inr ret \<Rightarrow> Return ret))"
  using assms type_re_match_group [OF assms]
  by (simp add: scan_token_def split: sum.splits)

lemma scan_token_evaluates:
  assumes "args_evaluate ev g token" and "\<not> return_comment token"
  shows "\<exists>types'. scan_token ev g args types token = Next types'"
proof (cases token)
  case (Pair kind c)
  show ?thesis
  proof (cases "kind = COMMENT \<and> type_re_match c \<noteq> None")
    case False
    then have "\<not> type_comment token" using Pair by (simp add: type_comment_def)
    then show ?thesis by (simp add: scan_token_other)
  next
    case True
    then obtain part0 part12 where m: "type_re_match c = Some (part0, part12)" by auto
    have n: "part12 = None"
      using assms(2) Pair True m by (cases part12) (simp_all add: return_comment_def)
    have "\<exists>types'. comment_types ev g types part0 = Inr types'"
    proof (cases "part0 = ''(...)''")
      case True
      then show ?thesis by (simp add: comment_types_def)
    next
      case False
      then obtain ob where "ev [ch \<leftarrow> part0. ch \<noteq> CHR ''*''] g = Inr ob"
        using assms(1) Pair True m
        by (cases "ev [ch \<leftarrow> part0. ch \<noteq> CHR ''*''] g") (simp_all add: args_evaluate_def)
      then show ?thesis using False by (simp add: comment_types_def split: pyval.splits)
    qed
    then show ?thesis using Pair True m n by (auto simp: scan_token_def)
  qed
qed

lemma scan_tokens_no_return:
  assumes "\<forall>t \<in> set tokens. args_evaluate ev g t"
    and "\<forall>t \<in> set tokens. \<not> return_comment t"
  shows "scan_tokens ev g args types tokens = Inl ValueError_no_return"
  using assms
proof (induction tokens arbitrary: types)
  case Nil
  then show ?case by simp
next
  case (Cons t tokens)
  have "\<exists>types'. scan_token ev g args types t = Next types'"
    using Cons.prems by (intro scan_token_evaluates) simp_all
  then obtain types' where "scan_token ev g args types t = Next types'" by blast
  moreover have "scan_tokens ev g args types' tokens = Inl ValueError_no_return"
    using Cons.IH Cons.prems by simp
  ultimately show ?case by simp
qed

lemma scan_tokens_Inr:
  "scan_tokens ev g args types tokens = Inr ret \<Longrightarrow>
   \<exists>types' ob. length types' = length args \<and> ret = setitem (dict (zip args types')) ''return'' ob"
proof (induction tokens arbitrary: types)
  case Nil
  then show ?case by simp
next
  case (Cons t tokens)
  show ?case
  proof (cases "scan_token ev g args types t")
    case (Next types')
    then show ?thesis using Cons by simp
  next
    case (Raise e)
    then show ?thesis using Cons.prems by simp
  next
    case (Return r)
    then have "r = ret" using Cons.prems by simp
    then show ?thesis using Return
      by (cases t)
         (fastforce simp: scan_token_def comment_return_def
               split: option.splits sum.splits if_splits)
  qed
qed

lemma annotation_args_eq:
  "annotation_args f =
     [k \<leftarrow> fn_args f. k \<noteq> ''self'']
       @ (case fn_varargs f of None \<Rightarrow> [] | Some v \<Rightarrow> [v])
       @ (case fn_keywords f of None \<Rightarrow> [] | Some kw \<Rightarrow> [kw])"
  by (simp add: annotation_args_def Let_def split: option.splits)

section \<open>The loop over the arguments\<close>

lemma call_types_loop_keys:
  "call_types_loop awd ann dfl args ct = Inr ct' \<Longrightarrow> fst ` set ct' = fst ` set ct \<union> set args"
proof (induction args arbitrary: ct)
  case Nil
  then show ?case by simp
next
  case (Cons a args)
  then show ?case
    by (auto simp: Let_def setitem_keys split: option.splits if_splits)
qed

lemma call_types_loop_result:
  assumes "call_types_loop awd ann dfl args ct = Inr ct'"
    and "distinct args" and "set args \<inter> fst ` set ct = {}"
  shows "ct' = ct @ map (\<lambda>a. (a, awd (the (map_of ann a))
                                  (case map_of dfl a of None \<Rightarrow> NO_DEFAULT | Some d \<Rightarrow> d))) args
         \<and> (\<forall>a \<in> set args. map_of ann a \<noteq> None)"
  using assms
proof (induction args arbitrary: ct)
  case Nil
  then show ?case by simp
next
  case (Cons a args)
  from Cons.prems(1) obtain t where t: "map_of ann a = Some t"
    by (cases "map_of ann a") simp_all
  let ?v = "awd t (case map_of dfl a of None \<Rightarrow> NO_DEFAULT | Some d \<Rightarrow> d)"
  have fresh: "a \<notin> fst ` set ct" using Cons.prems(3) by auto
  have step: "call_types_loop awd ann dfl args (ct @ [(a, ?v)]) = Inr ct'"
    using Cons.prems(1) t setitem_fresh [OF fresh, of ?v]
    by (simp add: Let_def split: if_splits)
  have "set args \<inter> fst ` set (ct @ [(a, ?v)]) = {}"
    using Cons.prems(2,3) by auto
  then show ?case
    using Cons.IH [OF step] Cons.prems(2) t by simp
qed

lemma call_types_loop_prefix:
  assumes "\<forall>b \<in> set pre. \<exists>t. map_of ann b = Some t
             \<and> isinstance_Anno (awd t (case map_of dfl b of None \<Rightarrow> NO_DEFAULT | Some d \<Rightarrow> d))"
  shows "\<exists>ct'. call_types_loop awd ann dfl (pre @ rest) ct = call_types_loop awd ann dfl rest ct'"
  using assms
proof (induction pre arbitrary: ct)
  case Nil
  then show ?case by auto
next
  case (Cons b pre)
  then obtain t where "map_of ann b = Some t"
    and "isinstance_Anno (awd t (case map_of dfl b of None \<Rightarrow> NO_DEFAULT | Some d \<Rightarrow> d))"
    by auto
  then show ?case using Cons by (simp add: Let_def)
qed

lemma make_call_types_Inr:
  assumes "make_call_types ev awd f g = Inr (ct, rt)"
  obtains raw where "raw_annotations ev f g = Inr raw"
    and "call_types_loop awd raw (call_defaults f) (call_args f) [] = Inr ct"
    and "call_return awd raw = Inr rt"
  using assms by (auto simp: make_call_types_def split: sum.splits)

lemma call_defaults_nth:
  assumes "distinct (call_args f)" "i < length (call_args f)"
  shows "(case map_of (call_defaults f) (call_args f ! i) of None \<Rightarrow> NO_DEFAULT | Some d \<Rightarrow> d) =
           (case fn_defaults f of
              None \<Rightarrow> NO_DEFAULT
            | Some ds \<Rightarrow>
                if length (call_args f) - length ds \<le> i
                then ds ! (i - (length (call_args f) - length ds))
                else NO_DEFAULT)"
proof (cases "fn_defaults f")
  case None
  then show ?thesis by (simp add: call_defaults_def)
next
  case (Some ds)
  let ?args = "call_args f"
  let ?m = "length ?args - length ds"
  show ?thesis
  proof (cases "ds = []")
    case True
    then show ?thesis using Some assms(2) by (simp add: call_defaults_def)
  next
    case False
    show ?thesis
    proof (cases "?m \<le> i")
      case True
      have "map_of (dict (zip (drop ?m ?args) ds)) (drop ?m ?args ! (i - ?m)) = Some (ds ! (i - ?m))"
        using assms True by (intro dict_zip_nth) auto
      moreover have "drop ?m ?args ! (i - ?m) = ?args ! i"
        using assms(2) True by simp
      ultimately show ?thesis using Some False True by (simp add: call_defaults_def)
    next
      case n: False
      have "?args ! i \<notin> set (drop ?m ?args)"
        using assms n by (intro nth_not_in_drop) auto
      then have "map_of (dict (zip (drop ?m ?args) ds)) (?args ! i) = None"
        by (rule dict_zip_None)
      then show ?thesis using Some False n by (simp add: call_defaults_def)
    qed
  qed
qed

section \<open>The examples evaluated\<close>

lemmas example_defs =
  make_annotations_def make_call_types_def raw_annotations_def annotation_args_def
  call_args_def call_defaults_def call_return_def scan_token_def comment_types_def
  comment_return_def type_re_match_def type_re_at_def return_group_def at_end_def
  def_tokens_def eval_names_def eval_name_def strip_def test_globals_def dict_def
  CallTypesMeta_init_def type_comment_def return_comment_def args_evaluate_def Let_def

section \<open>The type-comment parser\<close>

text \<open>
  Claim C2, which the code does not meet. The claim has \<^verbatim>\<open>make_annotations\<close> return an
  empty mapping for a callable without type comments, as
  \<^verbatim>\<open>test_make_annotations_no_comments\<close> asserts. The function of that test has no type
  comment among its tokens, and the loop runs to its end and raises the \<^verbatim>\<open>ValueError\<close>
  of line 132.
\<close>

theorem make_annotations_no_comments_raises:
  "\<not> list_ex type_comment (fn_tokens f_no_comments)
   \<and> make_annotations eval_names f_no_comments test_globals = Inl ValueError_no_return"
  by (simp add: example_defs f_no_comments_def)

text \<open>
  Claim C5. When the loop, having collected \<open>types0\<close> on the tokens before, comes to a
  comment that carries a return part (group 2 took part in the match), and the argument
  part of that comment brings the types to \<open>types\<close>, then \<^verbatim>\<open>make_annotations\<close>
  evaluates the return expression; it raises the \<^verbatim>\<open>AssertionError\<close> that lists the
  names and the types when their counts differ, and otherwise returns the names zipped
  with the types, with the value of the return expression under \<^verbatim>\<open>"return"\<close>. The
  tokens \<open>post\<close> after the comment have no part in the result: it is the same when they
  are dropped.
\<close>

theorem make_annotations_return_comment:
  assumes "fn_tokens f = pre @ (COMMENT, c) # post"
    and "scan_prefix ev g (annotation_args f) [] pre = Some types0"
    and "type_re_match c = Some (part0, Some (part1, part2))"
    and "comment_types ev g types0 part0 = Inr types"
  shows "make_annotations ev f g =
           (case ev part2 g of
              Inl e \<Rightarrow> Inl (ValueError_evaluating part2 e)
            | Inr ob \<Rightarrow>
                if length (annotation_args f) = length types
                then Inr (setitem (dict (zip (annotation_args f) types)) ''return'' ob)
                else Inl (AssertionError_length (annotation_args f) types))
       \<and> make_annotations ev (f\<lparr>fn_tokens := pre @ [(COMMENT, c)]\<rparr>) g = make_annotations ev f g"
proof -
  have at_comment: "scan_tokens ev g (annotation_args f) [] (pre @ (COMMENT, c) # rest) =
      (case comment_return ev g (annotation_args f) types part2 of
         Inl e \<Rightarrow> Inl e | Inr ret \<Rightarrow> Inr ret)" for rest
    using scan_prefix_append [OF assms(2)] scan_token_return_comment [OF assms(3)] assms(4)
    by (simp split: sum.splits)
  have whole: "make_annotations ev f g =
      (case comment_return ev g (annotation_args f) types part2 of
         Inl e \<Rightarrow> Inl e | Inr ret \<Rightarrow> Inr ret)"
    using at_comment [of post] assms(1) by (simp add: make_annotations_def)
  have cut: "make_annotations ev (f\<lparr>fn_tokens := pre @ [(COMMENT, c)]\<rparr>) g =
      (case comment_return ev g (annotation_args f) types part2 of
         Inl e \<Rightarrow> Inl e | Inr ret \<Rightarrow> Inr ret)"
    using at_comment [of "[]"] by (simp add: make_annotations_def annotation_args_def)
  show ?thesis
    using whole cut by (simp add: comment_return_def split: sum.splits)
qed

theorem make_annotations_return_comment_witness:
  "type_re_match ''# type: (Good, *Any, **Any) -> None''
     = Some (''(Good, *Any, **Any)'', Some ('' -> None'', ''None''))
   \<and> comment_types eval_names test_globals [] ''(Good, *Any, **Any)'' = Inr [Good, Any, Any]
   \<and> make_annotations eval_names f_kwargs test_globals
     = Inr [(''v'', Good), (''args'', Any), (''kwargs'', Any), (''return'', VNone)]"
proof -
  let ?pre = "[(NAME, ''def''), (NAME, ''f''), (OP, ''(''), (NAME, ''v''), (OP, '',''),
              (OP, ''*''), (NAME, ''args''), (OP, '',''), (OP, ''**''), (NAME, ''kwargs''),
              (OP, '')''), (OP, '':''), (NEWLINE, [CHR 0x0A])]"
  let ?post = "[(NL, [CHR 0x0A]), (INDENT, ''    ''), (NAME, ''pass''),
               (COMMENT, ''# type: (NonExistant) -> Missing''), (NEWLINE, [CHR 0x0A]),
               (DEDENT, []), (ENDMARKER, [])]"
  have h1: "fn_tokens f_kwargs = ?pre @ (COMMENT, ''# type: (Good, *Any, **Any) -> None'') # ?post"
    by (simp add: f_kwargs_def def_tokens_def)
  have h2: "scan_prefix eval_names test_globals (annotation_args f_kwargs) [] ?pre = Some []"
    by (simp add: scan_token_def)
  have h3: "type_re_match ''# type: (Good, *Any, **Any) -> None''
              = Some (''(Good, *Any, **Any)'', Some ('' -> None'', ''None''))"
    by (simp add: example_defs)
  have h4: "comment_types eval_names test_globals [] ''(Good, *Any, **Any)'' = Inr [Good, Any, Any]"
    by (simp add: example_defs)
  have "make_annotations eval_names f_kwargs test_globals
          = Inr [(''v'', Good), (''args'', Any), (''kwargs'', Any), (''return'', VNone)]"
    using make_annotations_return_comment [OF h1 h2 h3 h4]
    by (simp add: annotation_args_def f_kwargs_def eval_names_def eval_name_def strip_def dict_def)
  then show ?thesis using h3 h4 by simp
qed

text \<open>
  Claim C6. When the loop comes to a type comment: an argument expression (group 1
  without its asterisks, unless group 1 is \<^verbatim>\<open>(...)\<close>) whose evaluation raises \<open>e\<close> makes
  \<^verbatim>\<open>make_annotations\<close> raise the \<^verbatim>\<open>ValueError\<close> formatted from that expression and
  \<open>e\<close>; and when the argument part went through, a return expression (group 3) whose
  evaluation raises \<open>e\<close> makes it raise the \<^verbatim>\<open>ValueError\<close> formatted from the return
  expression and \<open>e\<close>.
\<close>

theorem make_annotations_evaluation_error:
  assumes "fn_tokens f = pre @ (COMMENT, c) # post"
    and "scan_prefix ev g (annotation_args f) [] pre = Some types0"
    and "type_re_match c = Some (part0, part12)"
  shows "(part0 \<noteq> ''(...)'' \<and> ev [ch \<leftarrow> part0. ch \<noteq> CHR ''*''] g = Inl e \<longrightarrow>
            make_annotations ev f g = Inl (ValueError_evaluating [ch \<leftarrow> part0. ch \<noteq> CHR ''*''] e))
       \<and> (\<forall>types part1 part2.
            comment_types ev g types0 part0 = Inr types \<and> part12 = Some (part1, part2)
              \<and> ev part2 g = Inl e \<longrightarrow>
            make_annotations ev f g = Inl (ValueError_evaluating part2 e))"
proof -
  have start: "make_annotations ev f g =
          scan_tokens ev g (annotation_args f) types0 ((COMMENT, c) # post)"
    using assms(1) scan_prefix_append [OF assms(2)] by (simp add: make_annotations_def)
  show ?thesis
  proof (intro conjI impI allI)
    assume "part0 \<noteq> ''(...)'' \<and> ev [ch \<leftarrow> part0. ch \<noteq> CHR ''*''] g = Inl e"
    then have "comment_types ev g types0 part0 =
                 Inl (ValueError_evaluating [ch \<leftarrow> part0. ch \<noteq> CHR ''*''] e)"
      by (simp add: comment_types_def)
    then show "make_annotations ev f g =
                 Inl (ValueError_evaluating [ch \<leftarrow> part0. ch \<noteq> CHR ''*''] e)"
      using start assms(3) by (cases part12) (simp_all add: scan_token_def)
  next
    fix types part1 part2
    assume h: "comment_types ev g types0 part0 = Inr types \<and> part12 = Some (part1, part2)
                 \<and> ev part2 g = Inl e"
    then have m: "type_re_match c = Some (part0, Some (part1, part2))"
      using assms(3) by simp
    show "make_annotations ev f g = Inl (ValueError_evaluating part2 e)"
      using start scan_token_return_comment [OF m] h by (simp add: comment_return_def)
  qed
qed

theorem make_annotations_evaluation_error_witness:
  "eval_names ''(NonExistant)'' test_globals = Inl (NameError_message ''NonExistant'')
   \<and> make_annotations eval_names (f_arg ''# type: (NonExistant) -> None'') test_globals
     = Inl (ValueError_evaluating ''(NonExistant)'' (NameError_message ''NonExistant''))
   \<and> eval_names ''Foo'' test_globals = Inl (NameError_message ''Foo'')
   \<and> make_annotations eval_names (f_arg ''# type: (str) -> Foo'') test_globals
     = Inl (ValueError_evaluating ''Foo'' (NameError_message ''Foo''))"
proof -
  let ?pre = "[(NAME, ''def''), (NAME, ''f''), (OP, ''(''), (NAME, ''arg''), (OP, '')''),
              (OP, '':''), (NEWLINE, [CHR 0x0A])]"
  let ?post = "[(NL, [CHR 0x0A]), (INDENT, ''    ''), (NAME, ''return''), (NAME, ''arg''),
               (NEWLINE, [CHR 0x0A]), (DEDENT, []), (ENDMARKER, [])]"
  have t: "fn_tokens (f_arg c) = ?pre @ (COMMENT, c) # ?post" for c
    by (simp add: f_arg_def def_tokens_def)
  have p: "scan_prefix eval_names test_globals (annotation_args (f_arg c)) [] ?pre = Some []" for c
    by (simp add: scan_token_def)
  have m1: "type_re_match ''# type: (NonExistant) -> None''
              = Some (''(NonExistant)'', Some ('' -> None'', ''None''))"
    by (simp add: example_defs)
  have m2: "type_re_match ''# type: (str) -> Foo'' = Some (''(str)'', Some ('' -> Foo'', ''Foo''))"
    by (simp add: example_defs)
  have e1: "eval_names ''(NonExistant)'' test_globals = Inl (NameError_message ''NonExistant'')"
    by (simp add: example_defs)
  have e2: "eval_names ''Foo'' test_globals = Inl (NameError_message ''Foo'')"
    by (simp add: example_defs)
  have c2: "comment_types eval_names test_globals [] ''(str)'' = Inr [VClass ''str'']"
    by (simp add: example_defs)
  have r1: "make_annotations eval_names (f_arg ''# type: (NonExistant) -> None'') test_globals
              = Inl (ValueError_evaluating ''(NonExistant)'' (NameError_message ''NonExistant''))"
    using make_annotations_evaluation_error
            [OF t p m1, of "NameError_message ''NonExistant''"] e1
    by simp
  have r2: "make_annotations eval_names (f_arg ''# type: (str) -> Foo'') test_globals
              = Inl (ValueError_evaluating ''Foo'' (NameError_message ''Foo''))"
    using make_annotations_evaluation_error [OF t p m2, of "NameError_message ''Foo''"] e2 c2
    by simp
  show ?thesis using e1 e2 r1 r2 by simp
qed

text \<open>
  Claim C7, as amended. When the tokens hold a type comment, no type comment carries a
  return part, and the argument part of every type comment evaluates without raising,
  \<^verbatim>\<open>make_annotations\<close> raises the \<^verbatim>\<open>ValueError\<close> of line 132, which says that the end was
  reached without seeing \<^verbatim>\<open>->\<close>.
\<close>

theorem make_annotations_no_return_marker:
  assumes "\<exists>t \<in> set (fn_tokens f). type_comment t"
    and "\<forall>t \<in> set (fn_tokens f). \<not> return_comment t"
    and "\<forall>t \<in> set (fn_tokens f). args_evaluate ev g t"
  shows "make_annotations ev f g = Inl ValueError_no_return"
  using scan_tokens_no_return [OF assms(3) assms(2)] by (simp add: make_annotations_def)

theorem make_annotations_no_return_marker_witness:
  "list_ex type_comment (fn_tokens (f_arg ''# type: (str)''))
   \<and> \<not> list_ex return_comment (fn_tokens (f_arg ''# type: (str)''))
   \<and> list_all (args_evaluate eval_names test_globals) (fn_tokens (f_arg ''# type: (str)''))
   \<and> make_annotations eval_names (f_arg ''# type: (str)'') test_globals = Inl ValueError_no_return"
proof -
  have h1: "list_ex type_comment (fn_tokens (f_arg ''# type: (str)''))"
    by (simp add: f_arg_def example_defs)
  have h2: "\<not> list_ex return_comment (fn_tokens (f_arg ''# type: (str)''))"
    by (simp add: f_arg_def example_defs)
  have h3: "list_all (args_evaluate eval_names test_globals) (fn_tokens (f_arg ''# type: (str)''))"
    by (simp add: f_arg_def example_defs)
  have "make_annotations eval_names (f_arg ''# type: (str)'') test_globals = Inl ValueError_no_return"
    using h1 h2 h3
    by (intro make_annotations_no_return_marker) (simp_all add: list_ex_iff list_all_iff)
  then show ?thesis using h1 h2 h3 by simp
qed

text \<open>
  Claim C7 as it was stated fails on the function of \<^verbatim>\<open>test_no_return\<close> with the name
  in its comment not defined: the tokens hold a type comment, none carries a return part,
  and \<^verbatim>\<open>make_annotations\<close> raises the \<^verbatim>\<open>ValueError\<close> of line 112 for the expression, not
  the one of line 132.
\<close>

theorem no_return_marker_evaluation_error:
  "list_ex type_comment (fn_tokens (f_arg ''# type: (NonExistant)''))
   \<and> \<not> list_ex return_comment (fn_tokens (f_arg ''# type: (NonExistant)''))
   \<and> make_annotations eval_names (f_arg ''# type: (NonExistant)'') test_globals
     = Inl (ValueError_evaluating ''(NonExistant)'' (NameError_message ''NonExistant''))
   \<and> make_annotations eval_names (f_arg ''# type: (NonExistant)'') test_globals
     \<noteq> Inl ValueError_no_return"
  by (simp add: f_arg_def example_defs)



section \<open>The call types of a callable\<close>

text \<open>
  Claim C3. When \<^verbatim>\<open>make_call_types\<close> returns \<open>(ct, rt)\<close> for a callable (whose
  argument names differ from one another, as Python has it), the raw annotations are the
  callable's own \<^verbatim>\<open>__annotations__\<close> when it has them and they are not empty, and the
  result of \<^verbatim>\<open>make_annotations\<close> with the same namespace otherwise; the keys of \<open>ct\<close>
  are the argument names in their order, without \<^verbatim>\<open>"self"\<close>; and the entry at position
  \<open>i\<close> is the raw annotation of that name with the default attached that stands at the
  same distance from the end of the defaults, or with \<^verbatim>\<open>NO_DEFAULT\<close> when the defaults
  do not reach that far.
\<close>

theorem make_call_types_keys_and_defaults:
  assumes "make_call_types ev awd f g = Inr (ct, rt)" and "distinct (fn_args f)"
  shows "\<exists>raw.
           (case fn_annotations f of
              None \<Rightarrow> make_annotations ev f g = Inr raw
            | Some annotations \<Rightarrow>
                if annotations = [] then make_annotations ev f g = Inr raw
                else raw = annotations)
         \<and> map fst ct = [k \<leftarrow> fn_args f. k \<noteq> ''self'']
         \<and> (\<forall>i < length ct. \<exists>t.
               map_of raw (fst (ct ! i)) = Some t
             \<and> snd (ct ! i) =
                 awd t (case fn_defaults f of
                          None \<Rightarrow> NO_DEFAULT
                        | Some ds \<Rightarrow>
                            if length ct - length ds \<le> i
                            then ds ! (i - (length ct - length ds))
                            else NO_DEFAULT))"
proof -
  from assms(1) obtain raw where raw: "raw_annotations ev f g = Inr raw"
    and loop: "call_types_loop awd raw (call_defaults f) (call_args f) [] = Inr ct"
    by (rule make_call_types_Inr)
  have d: "distinct (call_args f)" using assms(2) by (simp add: call_args_def)
  let ?dflt = "\<lambda>a. case map_of (call_defaults f) a of None \<Rightarrow> NO_DEFAULT | Some d \<Rightarrow> d"
  have ct: "ct = map (\<lambda>a. (a, awd (the (map_of raw a)) (?dflt a))) (call_args f)"
    and some: "\<forall>a \<in> set (call_args f). map_of raw a \<noteq> None"
    using call_types_loop_result [OF loop d] by simp_all
  have len: "length ct = length (call_args f)" using ct by simp
  have keys: "map fst ct = [k \<leftarrow> fn_args f. k \<noteq> ''self'']"
    using ct by (simp add: call_args_def comp_def)
  have src: "case fn_annotations f of
               None \<Rightarrow> make_annotations ev f g = Inr raw
             | Some annotations \<Rightarrow>
                 if annotations = [] then make_annotations ev f g = Inr raw
                 else raw = annotations"
    using raw by (auto simp: raw_annotations_def split: option.splits if_splits)
  have vals: "\<forall>i < length ct. \<exists>t.
               map_of raw (fst (ct ! i)) = Some t
             \<and> snd (ct ! i) =
                 awd t (case fn_defaults f of
                          None \<Rightarrow> NO_DEFAULT
                        | Some ds \<Rightarrow>
                            if length ct - length ds \<le> i
                            then ds ! (i - (length ct - length ds))
                            else NO_DEFAULT)"
  proof (intro allI impI)
    fix i assume i: "i < length ct"
    then have i': "i < length (call_args f)" using len by simp
    have e: "ct ! i = (call_args f ! i,
                       awd (the (map_of raw (call_args f ! i))) (?dflt (call_args f ! i)))"
      using ct i' by simp
    obtain t where t: "map_of raw (call_args f ! i) = Some t"
      using some i' by (metis nth_mem not_None_eq)
    show "\<exists>t. map_of raw (fst (ct ! i)) = Some t
             \<and> snd (ct ! i) =
                 awd t (case fn_defaults f of
                          None \<Rightarrow> NO_DEFAULT
                        | Some ds \<Rightarrow>
                            if length ct - length ds \<le> i
                            then ds ! (i - (length ct - length ds))
                            else NO_DEFAULT)"
      unfolding len using e t call_defaults_nth [OF d i']
      by (intro exI [of _ t]) (simp only: fst_conv snd_conv option.sel simp_thms)
  qed
  show ?thesis using src keys vals by blast
qed

theorem make_call_types_keys_and_defaults_witness:
  "make_call_types eval_names anno_with_default Simple_init test_globals
     = Inr ([(''exposure'', Exposure),
             (''path'', Anno ''The path to write to'' (VClass ''str'') (Some ''Path'')
                          (VStr ''/tmp/file.txt''))], VNone)
   \<and> distinct (fn_args Simple_init)
   \<and> (\<exists>raw. make_annotations eval_names Simple_init test_globals = Inr raw
          \<and> map_of raw ''exposure'' \<noteq> None \<and> map_of raw ''path'' \<noteq> None)
   \<and> make_call_types eval_names anno_with_default
        (f_live [(''a'', Good), (''b'', Exposure)]) test_globals
     = Inr ([(''a'', Good), (''b'', Exposure)], VNone)
   \<and> (\<exists>raw. raw = [(''a'', Good), (''b'', Exposure)]
          \<and> map_of raw ''a'' \<noteq> None \<and> map_of raw ''b'' \<noteq> None)"
proof -
  let ?ct = "[(''exposure'', Exposure),
             (''path'', Anno ''The path to write to'' (VClass ''str'') (Some ''Path'')
                          (VStr ''/tmp/file.txt''))]"
  have h1: "make_call_types eval_names anno_with_default Simple_init test_globals
              = Inr (?ct, VNone)"
    by (simp add: Simple_init_def example_defs Exposure_def Path_def)
  have h2: "distinct (fn_args Simple_init)"
    by (simp add: Simple_init_def)
  obtain raw where r: "case fn_annotations Simple_init of
              None \<Rightarrow> make_annotations eval_names Simple_init test_globals = Inr raw
            | Some annotations \<Rightarrow>
                if annotations = [] then make_annotations eval_names Simple_init test_globals = Inr raw
                else raw = annotations"
    and v: "\<forall>i < length ?ct. \<exists>t. map_of raw (fst (?ct ! i)) = Some t
             \<and> snd (?ct ! i) =
                 anno_with_default t (case fn_defaults Simple_init of
                          None \<Rightarrow> NO_DEFAULT
                        | Some ds \<Rightarrow>
                            if length ?ct - length ds \<le> i
                            then ds ! (i - (length ?ct - length ds))
                            else NO_DEFAULT)"
    using make_call_types_keys_and_defaults [OF h1 h2] by blast
  have r': "make_annotations eval_names Simple_init test_globals = Inr raw"
    using r by (simp add: Simple_init_def)
  have "\<exists>t. map_of raw (fst (?ct ! 0)) = Some t" using v by fastforce
  then have v0: "map_of raw ''exposure'' \<noteq> None" by simp
  have "\<exists>t. map_of raw (fst (?ct ! 1)) = Some t" using v by fastforce
  then have v1: "map_of raw ''path'' \<noteq> None" by simp
  let ?lt = "[(''a'', Good), (''b'', Exposure)]"
  have k1: "make_call_types eval_names anno_with_default (f_live ?lt) test_globals
              = Inr (?lt, VNone)"
    by (simp add: f_live_def example_defs Exposure_def Good_def)
  have k2: "distinct (fn_args (f_live ?lt))"
    by (simp add: f_live_def)
  obtain raw2 where q: "case fn_annotations (f_live ?lt) of
              None \<Rightarrow> make_annotations eval_names (f_live ?lt) test_globals = Inr raw2
            | Some annotations \<Rightarrow>
                if annotations = [] then make_annotations eval_names (f_live ?lt) test_globals = Inr raw2
                else raw2 = annotations"
    using make_call_types_keys_and_defaults [OF k1 k2] by blast
  have q': "raw2 = ?lt" using q by (simp add: f_live_def)
  show ?thesis using h1 h2 r' v0 v1 k1 q' by auto
qed

text \<open>
  Claim C4. Once the raw annotations are there and the loop over the arguments has gone
  through: let \<open>r\<close> be what \<^verbatim>\<open>anno_with_default\<close> gives for the \<^verbatim>\<open>"return"\<close> entry of
  the raw annotations (\<^verbatim>\<open>None\<close> when there is no such entry). When \<open>r\<close> is the \<^verbatim>\<open>Any\<close>
  marker the return descriptor is \<^verbatim>\<open>Anno("Any return value", Any, "return")\<close>; otherwise
  \<open>r\<close> itself is returned when it is \<^verbatim>\<open>None\<close> or a descriptor, and the \<^verbatim>\<open>AssertionError\<close>
  of line 75 is raised when it is neither. In particular, with no \<^verbatim>\<open>"return"\<close> entry
  and a helper that leaves \<^verbatim>\<open>None\<close> as it is, the return descriptor is \<^verbatim>\<open>None\<close>.
\<close>

theorem make_call_types_return_type:
  assumes "raw_annotations ev f g = Inr annotations"
    and "call_types_loop awd annotations (call_defaults f) (call_args f) [] = Inr ct"
  shows "(map_of annotations ''return'' = None \<and> awd VNone NO_DEFAULT = VNone \<longrightarrow>
            make_call_types ev awd f g = Inr (ct, VNone))
       \<and> (\<forall>r. r = awd (case map_of annotations ''return'' of None \<Rightarrow> VNone | Some v \<Rightarrow> v)
                      NO_DEFAULT \<longrightarrow>
            make_call_types ev awd f g =
              (if r = Any then Inr (ct, Anno ''Any return value'' Any (Some ''return'') NO_DEFAULT)
               else if r = VNone \<or> isinstance_Anno r then Inr (ct, r)
               else Inl (AssertionError_return r)))"
  using assms by (simp add: make_call_types_def call_return_def Let_def)

theorem make_call_types_return_type_witness:
  "raw_annotations eval_names (f_live [(''a'', Good), (''b'', Good)]) test_globals
     = Inr [(''a'', Good), (''b'', Good)]
   \<and> map_of [(''a'', Good), (''b'', Good)] ''return'' = None
   \<and> anno_with_default VNone NO_DEFAULT = VNone
   \<and> make_call_types eval_names anno_with_default (f_live [(''a'', Good), (''b'', Good)])
        test_globals = Inr ([(''a'', Good), (''b'', Good)], VNone)
   \<and> raw_annotations eval_names any_func test_globals = Inr [(''kwargs'', Any), (''return'', Any)]
   \<and> make_call_types eval_names anno_with_default any_func test_globals
     = Inr ([], Anno ''Any return value'' Any (Some ''return'') NO_DEFAULT)
   \<and> raw_annotations eval_names (f_live [(''a'', Good), (''b'', Good), (''return'', VClass ''str'')])
        test_globals = Inr [(''a'', Good), (''b'', Good), (''return'', VClass ''str'')]
   \<and> make_call_types eval_names anno_with_default
        (f_live [(''a'', Good), (''b'', Good), (''return'', VClass ''str'')]) test_globals
     = Inl (AssertionError_return (VClass ''str''))"
proof -
  let ?l1 = "[(''a'', Good), (''b'', Good)]"
  let ?l3 = "[(''a'', Good), (''b'', Good), (''return'', VClass ''str'')]"
  have a1: "raw_annotations eval_names (f_live ?l1) test_globals = Inr ?l1"
    by (simp add: raw_annotations_def f_live_def)
  have b1: "call_types_loop anno_with_default ?l1 (call_defaults (f_live ?l1))
              (call_args (f_live ?l1)) [] = Inr ?l1"
    by (simp add: f_live_def call_defaults_def call_args_def Good_def Let_def)
  have r1: "make_call_types eval_names anno_with_default (f_live ?l1) test_globals
              = Inr (?l1, VNone)"
    using make_call_types_return_type [OF a1 b1] by simp
  have a2: "raw_annotations eval_names any_func test_globals
              = Inr [(''kwargs'', Any), (''return'', Any)]"
    by (simp add: any_func_def example_defs)
  have b2: "call_types_loop anno_with_default [(''kwargs'', Any), (''return'', Any)]
              (call_defaults any_func) (call_args any_func) [] = Inr []"
    by (simp add: any_func_def call_defaults_def call_args_def)
  have r2: "make_call_types eval_names anno_with_default any_func test_globals
              = Inr ([], Anno ''Any return value'' Any (Some ''return'') NO_DEFAULT)"
    using make_call_types_return_type [OF a2 b2] by simp
  have a3: "raw_annotations eval_names (f_live ?l3) test_globals = Inr ?l3"
    by (simp add: raw_annotations_def f_live_def)
  have b3: "call_types_loop anno_with_default ?l3 (call_defaults (f_live ?l3))
              (call_args (f_live ?l3)) [] = Inr ?l1"
    by (simp add: f_live_def call_defaults_def call_args_def Good_def Let_def)
  have r3: "make_call_types eval_names anno_with_default (f_live ?l3) test_globals
              = Inl (AssertionError_return (VClass ''str''))"
    using make_call_types_return_type [OF a3 b3] by simp
  show ?thesis using a1 r1 a2 r2 a3 r3 by simp
qed

text \<open>
  Claim C8. When the loop over the arguments has gone through the arguments before
  \<open>a\<close>: an argument \<open>a\<close> with no entry in the raw annotations makes \<^verbatim>\<open>make_call_types\<close>
  raise \<^verbatim>\<open>KeyError\<close> for \<open>a\<close>, and an argument whose annotation with the default
  attached is no descriptor makes it raise the \<^verbatim>\<open>AssertionError\<close> of line 68, formatted
  from \<open>a\<close> and that value.
\<close>

theorem make_call_types_argument_errors:
  assumes "raw_annotations ev f g = Inr annotations"
    and "call_args f = pre @ a # post"
    and "\<forall>b \<in> set pre. \<exists>t. map_of annotations b = Some t
           \<and> isinstance_Anno
               (awd t (case map_of (call_defaults f) b of None \<Rightarrow> NO_DEFAULT | Some d \<Rightarrow> d))"
  shows "(map_of annotations a = None \<longrightarrow> make_call_types ev awd f g = Inl (KeyError a))
       \<and> (\<forall>t anno. map_of annotations a = Some t
             \<and> anno = awd t (case map_of (call_defaults f) a of None \<Rightarrow> NO_DEFAULT | Some d \<Rightarrow> d)
             \<and> \<not> isinstance_Anno anno \<longrightarrow>
            make_call_types ev awd f g = Inl (AssertionError_argument a anno))"
proof -
  obtain ct' where "call_types_loop awd annotations (call_defaults f) (pre @ a # post) []
      = call_types_loop awd annotations (call_defaults f) (a # post) ct'"
    using call_types_loop_prefix [OF assms(3)] by blast
  then show ?thesis
    using assms(1,2) by (simp add: make_call_types_def Let_def)
qed

theorem make_call_types_argument_errors_witness:
  "call_args (f_live [(''a'', Good)]) = [''a''] @ ''b'' # []
   \<and> map_of [(''a'', Good)] ''b'' = None
   \<and> make_call_types eval_names anno_with_default (f_live [(''a'', Good)]) test_globals
     = Inl (KeyError ''b'')
   \<and> map_of [(''a'', Good), (''b'', VClass ''str'')] ''b'' = Some (VClass ''str'')
   \<and> \<not> isinstance_Anno (anno_with_default (VClass ''str'') NO_DEFAULT)
   \<and> make_call_types eval_names anno_with_default (f_live [(''a'', Good), (''b'', VClass ''str'')])
        test_globals = Inl (AssertionError_argument ''b'' (VClass ''str''))"
proof -
  let ?l1 = "[(''a'', Good)]"
  let ?l2 = "[(''a'', Good), (''b'', VClass ''str'')]"
  have a1: "raw_annotations eval_names (f_live ?l1) test_globals = Inr ?l1"
    by (simp add: raw_annotations_def f_live_def)
  have a2: "raw_annotations eval_names (f_live ?l2) test_globals = Inr ?l2"
    by (simp add: raw_annotations_def f_live_def)
  have c: "call_args (f_live l) = [''a''] @ ''b'' # []" for l
    by (simp add: call_args_def f_live_def)
  have p1: "\<forall>b \<in> set [''a'']. \<exists>t. map_of ?l1 b = Some t
           \<and> isinstance_Anno (anno_with_default t
               (case map_of (call_defaults (f_live ?l1)) b of None \<Rightarrow> NO_DEFAULT | Some d \<Rightarrow> d))"
    by (simp add: Good_def)
  have p2: "\<forall>b \<in> set [''a'']. \<exists>t. map_of ?l2 b = Some t
           \<and> isinstance_Anno (anno_with_default t
               (case map_of (call_defaults (f_live ?l2)) b of None \<Rightarrow> NO_DEFAULT | Some d \<Rightarrow> d))"
    by (simp add: Good_def)
  have r1: "make_call_types eval_names anno_with_default (f_live ?l1) test_globals
              = Inl (KeyError ''b'')"
    using make_call_types_argument_errors [OF a1 c p1] by simp
  have r2: "make_call_types eval_names anno_with_default (f_live ?l2) test_globals
              = Inl (AssertionError_argument ''b'' (VClass ''str''))"
    using make_call_types_argument_errors [OF a2 c p2]
    by (simp add: call_defaults_def f_live_def)
  show ?thesis using c r1 r2 by simp
qed

text \<open>
  Claim C9. An argument name of the callable is a key of the call types exactly when it
  is not \<^verbatim>\<open>"self"\<close>, whatever its position; and what \<^verbatim>\<open>make_annotations\<close> returns pairs
  the argument names that are not \<^verbatim>\<open>"self"\<close>, then the name of the \<^verbatim>\<open>*\<close> argument and of
  the \<^verbatim>\<open>**\<close> argument when there are such, with as many types, position by position. So
  the \<^verbatim>\<open>cls\<close> of a class method stays and takes the first type of the comment.
\<close>

theorem self_excluded_by_name:
  "(\<forall>ct rt k. make_call_types ev awd f g = Inr (ct, rt) \<and> k \<in> set (fn_args f) \<longrightarrow>
       (k \<in> fst ` set ct \<longleftrightarrow> k \<noteq> ''self''))
   \<and> (\<forall>ret. make_annotations ev f g = Inr ret \<longrightarrow>
        (\<exists>types ob names.
            names = [k \<leftarrow> fn_args f. k \<noteq> ''self'']
                      @ (case fn_varargs f of None \<Rightarrow> [] | Some v \<Rightarrow> [v])
                      @ (case fn_keywords f of None \<Rightarrow> [] | Some kw \<Rightarrow> [kw])
          \<and> length types = length names
          \<and> ret = setitem (dict (zip names types)) ''return'' ob
          \<and> (distinct names \<longrightarrow>
               (\<forall>i < length names. names ! i \<noteq> ''return'' \<longrightarrow>
                  map_of ret (names ! i) = Some (types ! i)))))"
proof (intro conjI allI impI)
  fix ct rt k
  assume h: "make_call_types ev awd f g = Inr (ct, rt) \<and> k \<in> set (fn_args f)"
  then obtain raw where "call_types_loop awd raw (call_defaults f) (call_args f) [] = Inr ct"
    by (auto elim: make_call_types_Inr)
  then have "fst ` set ct = set (call_args f)"
    using call_types_loop_keys by fastforce
  then show "k \<in> fst ` set ct \<longleftrightarrow> k \<noteq> ''self''"
    using h by (simp add: call_args_def)
next
  fix ret
  assume "make_annotations ev f g = Inr ret"
  then obtain types ob where l: "length types = length (annotation_args f)"
    and r: "ret = setitem (dict (zip (annotation_args f) types)) ''return'' ob"
    unfolding make_annotations_def by (blast dest: scan_tokens_Inr)
  have "distinct (annotation_args f) \<longrightarrow>
          (\<forall>i < length (annotation_args f). annotation_args f ! i \<noteq> ''return'' \<longrightarrow>
             map_of ret (annotation_args f ! i) = Some (types ! i))"
    using l r by (simp add: dict_zip_nth map_of_setitem)
  then show "\<exists>types ob names.
            names = [k \<leftarrow> fn_args f. k \<noteq> ''self'']
                      @ (case fn_varargs f of None \<Rightarrow> [] | Some v \<Rightarrow> [v])
                      @ (case fn_keywords f of None \<Rightarrow> [] | Some kw \<Rightarrow> [kw])
          \<and> length types = length names
          \<and> ret = setitem (dict (zip names types)) ''return'' ob
          \<and> (distinct names \<longrightarrow>
               (\<forall>i < length names. names ! i \<noteq> ''return'' \<longrightarrow>
                  map_of ret (names ! i) = Some (types ! i)))"
    using l r unfolding annotation_args_eq by blast
qed

theorem self_excluded_by_name_witness:
  "make_call_types eval_names anno_with_default g_self test_globals = Inr ([(''a'', Good)], VNone)
   \<and> fn_args g_self = [''a'', ''self'']
   \<and> ''a'' \<in> fst ` set [(''a'', Good)]
   \<and> ''self'' \<notin> fst ` set [(''a'', Good)]
   \<and> make_annotations eval_names c_method test_globals
     = Inr [(''cls'', VClass ''T''), (''a'', VClass ''str''), (''return'', VClass ''str'')]
   \<and> (\<exists>types ob. length types = length [''cls'', ''a'']
         \<and> [(''cls'', VClass ''T''), (''a'', VClass ''str''), (''return'', VClass ''str'')]
           = setitem (dict (zip [''cls'', ''a''] types)) ''return'' ob)"
proof -
  have h: "make_call_types eval_names anno_with_default g_self test_globals
             = Inr ([(''a'', Good)], VNone)"
    by (simp add: g_self_def example_defs Good_def)
  have a: "fn_args g_self = [''a'', ''self'']"
    by (simp add: g_self_def)
  have keys: "\<forall>ct rt k. make_call_types eval_names anno_with_default g_self test_globals
                  = Inr (ct, rt) \<and> k \<in> set (fn_args g_self) \<longrightarrow>
                (k \<in> fst ` set ct \<longleftrightarrow> k \<noteq> ''self'')"
    using self_excluded_by_name [of eval_names anno_with_default g_self test_globals]
    by (rule conjunct1)
  have k1: "''a'' \<in> fst ` set [(''a'', Good)]"
    by simp
  have "''self'' \<in> fst ` set [(''a'', Good)] \<longleftrightarrow> ''self'' \<noteq> ''self''"
    using keys [rule_format, of "[(''a'', Good)]" VNone "''self''"] h a by simp
  then have k2: "''self'' \<notin> fst ` set [(''a'', Good)]"
    by simp
  have m: "make_annotations eval_names c_method test_globals
             = Inr [(''cls'', VClass ''T''), (''a'', VClass ''str''), (''return'', VClass ''str'')]"
    by (simp add: c_method_def example_defs)
  have n: "[k \<leftarrow> fn_args c_method. k \<noteq> ''self'']
             @ (case fn_varargs c_method of None \<Rightarrow> [] | Some v \<Rightarrow> [v])
             @ (case fn_keywords c_method of None \<Rightarrow> [] | Some kw \<Rightarrow> [kw]) = [''cls'', ''a'']"
    by (simp add: c_method_def)
  have pairs: "\<forall>ret. make_annotations eval_names c_method test_globals = Inr ret \<longrightarrow>
        (\<exists>types ob names.
            names = [k \<leftarrow> fn_args c_method. k \<noteq> ''self'']
                      @ (case fn_varargs c_method of None \<Rightarrow> [] | Some v \<Rightarrow> [v])
                      @ (case fn_keywords c_method of None \<Rightarrow> [] | Some kw \<Rightarrow> [kw])
          \<and> length types = length names
          \<and> ret = setitem (dict (zip names types)) ''return'' ob
          \<and> (distinct names \<longrightarrow>
               (\<forall>i < length names. names ! i \<noteq> ''return'' \<longrightarrow>
                  map_of ret (names ! i) = Some (types ! i))))"
    using self_excluded_by_name [of eval_names anno_with_default c_method test_globals]
    by (rule conjunct2)
  obtain types ob names where
        nm: "names = [k \<leftarrow> fn_args c_method. k \<noteq> ''self'']
                      @ (case fn_varargs c_method of None \<Rightarrow> [] | Some v \<Rightarrow> [v])
                      @ (case fn_keywords c_method of None \<Rightarrow> [] | Some kw \<Rightarrow> [kw])"
    and ln: "length types = length names"
    and eq: "[(''cls'', VClass ''T''), (''a'', VClass ''str''), (''return'', VClass ''str'')]
           = setitem (dict (zip names types)) ''return'' ob"
    using pairs [rule_format, OF m] by (elim exE conjE)
  have nm': "names = [''cls'', ''a'']"
    using nm unfolding n .
  have "length types = length [''cls'', ''a'']
         \<and> [(''cls'', VClass ''T''), (''a'', VClass ''str''), (''return'', VClass ''str'')]
           = setitem (dict (zip [''cls'', ''a''] types)) ''return'' ob"
    using ln eq unfolding nm' by (rule conjI)
  then have e: "\<exists>types ob. length types = length [''cls'', ''a'']
         \<and> [(''cls'', VClass ''T''), (''a'', VClass ''str''), (''return'', VClass ''str'')]
           = setitem (dict (zip [''cls'', ''a''] types)) ''return'' ob"
    by (intro exI)
  show ?thesis
    by (intro conjI) (rule h a k1 k2 m e)+
qed

section \<open>The metaclass\<close>

text \<open>
  Claim C1, which the code does not meet. The claim has a class that defines no
  constructor store the call types of its nearest ancestor that defines one, as
  \<^verbatim>\<open>test_subclassing_with_no_init\<close> asserts with \<^verbatim>\<open>list(Sub1.call_types) == ["name"]\<close>.
  On the classes of that test, \<^verbatim>\<open>Sub1\<close> defines no constructor and its only base
  \<^verbatim>\<open>Root\<close> defines one; \<^verbatim>\<open>CallTypesMeta.__init__\<close> stores for \<^verbatim>\<open>Root\<close> the call types
  with the entry \<^verbatim>\<open>name\<close>, and for \<^verbatim>\<open>Sub1\<close> the empty \<^verbatim>\<open>OrderedDict\<close> of line 22 and
  the new return descriptor of line 23 with \<^verbatim>\<open>Sub1\<close> as its type: neither is what was
  stored for \<^verbatim>\<open>Root\<close>.
\<close>

theorem Sub1_does_not_inherit:
  "map_of Root_dct ''__init__'' = Some Root_init
   \<and> map_of Sub1_dct ''__init__'' = None
   \<and> CallTypesMeta_init eval_names anno_with_default ''Root'' [''WithCallTypes''] Root_dct
     = Inr \<lparr>call_types = [(''name'', Good)],
            return_type = Anno ''Class instance'' (VClass ''Root'') (Some ''Instance'') NO_DEFAULT\<rparr>
   \<and> CallTypesMeta_init eval_names anno_with_default ''Sub1'' [''Root''] Sub1_dct
     = Inr \<lparr>call_types = [],
            return_type = Anno ''Class instance'' (VClass ''Sub1'') (Some ''Instance'') NO_DEFAULT\<rparr>
   \<and> map_sum id call_types
        (CallTypesMeta_init eval_names anno_with_default ''Sub1'' [''Root''] Sub1_dct)
     \<noteq> map_sum id call_types
        (CallTypesMeta_init eval_names anno_with_default ''Root'' [''WithCallTypes''] Root_dct)
   \<and> map_sum id return_type
        (CallTypesMeta_init eval_names anno_with_default ''Sub1'' [''Root''] Sub1_dct)
     \<noteq> map_sum id return_type
        (CallTypesMeta_init eval_names anno_with_default ''Root'' [''WithCallTypes''] Root_dct)"
  by (simp add: Root_dct_def Sub1_dct_def Root_init_def example_defs Good_def)

end
